theory Spec2Isabelle
  imports Complex_Main "HOL-Library.Word" "HOL-Library.AList"
begin

section \<open>Values shared by the whole model\<close>

text \<open>
  A Python \<open>str\<close> is a \<^typ>\<open>string\<close>, its characters being the code points below 256;
  the character classes \<^verbatim>\<open>\w\<close> and \<^verbatim>\<open>\d\<close> and \<open>str.lower\<close> are those of Python on these
  code points. \<open>bytes\<close> is a list of 8-bit words. A \<open>dict\<close> is an association
  list with distinct keys in insertion order: assignment is \<^const>\<open>AList.update\<close>
  (an existing key keeps its place, a new key goes last), lookup is \<^const>\<open>map_of\<close>.
\<close>

type_synonym byte = "8 word"
type_synonym bytes = "byte list"
type_synonym ('k, 'v) dict = "('k \<times> 'v) list"

text \<open>Every exception the modelled code raises is a value of this type.\<close>

datatype error =
    ValueError
  | IOError
  | TypeError
  | AttributeError
  | KeyError
  | LookupError
  | UnicodeError
  | AssertionError
  | HTTPException nat

text \<open>
  \<open>a == b\<close> on two dicts, as Python computes it: the same number of entries, and every
  key of \<open>a\<close> is in \<open>b\<close> with an equal value. The order of the entries plays no part.
\<close>

definition dict_eq :: "('k, 'v) dict \<Rightarrow> ('k, 'v) dict \<Rightarrow> bool" where
  "dict_eq a b = (length a = length b \<and> list_all (\<lambda>(k, v). map_of b k = Some v) a)"

section \<open>constants.py\<close>

datatype Schema = HTTP | HTTPS

datatype BodyType = TEXT | BYTES | AUTO

datatype RequestMethod = GET | POST | PUT | PATCH | DELETE | OPTIONS | HEAD | TRACE | CONNECT

fun Schema_value :: "Schema \<Rightarrow> string" where
  "Schema_value HTTP = ''http''"
| "Schema_value HTTPS = ''https''"

fun BodyType_value :: "BodyType \<Rightarrow> string" where
  "BodyType_value TEXT = ''text''"
| "BodyType_value BYTES = ''bytes''"
| "BodyType_value AUTO = ''auto''"

fun RequestMethod_value :: "RequestMethod \<Rightarrow> string" where
  "RequestMethod_value GET = ''GET''"
| "RequestMethod_value POST = ''POST''"
| "RequestMethod_value PUT = ''PUT''"
| "RequestMethod_value PATCH = ''PATCH''"
| "RequestMethod_value DELETE = ''DELETE''"
| "RequestMethod_value OPTIONS = ''OPTIONS''"
| "RequestMethod_value HEAD = ''HEAD''"
| "RequestMethod_value TRACE = ''TRACE''"
| "RequestMethod_value CONNECT = ''CONNECT''"

text \<open>\<open>Schema.get_key_by_value\<close>: the first member equal to the value, else \<open>None\<close>.\<close>

definition Schema_get_key_by_value :: "string \<Rightarrow> Schema option" where
  "Schema_get_key_by_value v = find (\<lambda>element. Schema_value element = v) [HTTP, HTTPS]"

section \<open>model/config\_file.py: the base URL\<close>

definition is_digit_char :: "char \<Rightarrow> bool" where
  "is_digit_char c = (48 \<le> (of_char c :: nat) \<and> (of_char c :: nat) \<le> 57)"

definition is_word_char :: "char \<Rightarrow> bool" where
  "is_word_char c =
     (let n = (of_char c :: nat)
      in (48 \<le> n \<and> n \<le> 57) \<or> (65 \<le> n \<and> n \<le> 90) \<or> (97 \<le> n \<and> n \<le> 122) \<or> n = 95
         \<or> n = 170 \<or> n = 178 \<or> n = 179 \<or> n = 181 \<or> n = 185 \<or> n = 186
         \<or> (188 \<le> n \<and> n \<le> 190) \<or> (192 \<le> n \<and> n \<le> 214) \<or> (216 \<le> n \<and> n \<le> 246)
         \<or> 248 \<le> n)"

definition is_host_char :: "char \<Rightarrow> bool" where
  "is_host_char c = (is_word_char c \<or> c = CHR ''.'')"

definition lower_char :: "char \<Rightarrow> char" where
  "lower_char c =
     (let n = (of_char c :: nat)
      in if 65 \<le> n \<and> n \<le> 90 then ''abcdefghijklmnopqrstuvwxyz'' ! (n - 65)
         else if (192 \<le> n \<and> n \<le> 214) \<or> (216 \<le> n \<and> n \<le> 222) then char_of (n + 32)
         else c)"

definition lower :: "string \<Rightarrow> string" where
  "lower s = map lower_char s"

text \<open>\<open>int(s)\<close> on a string of decimal digits.\<close>

definition py_int :: "string \<Rightarrow> nat" where
  "py_int s = foldl (\<lambda>acc c. 10 * acc + ((of_char c :: nat) - 48)) 0 s"

text \<open>
  The groups of a match of
  \<^verbatim>\<open>^((\w+)://)?([\w.]+)(:(\d{1,5}))?((/\w+)*)$\<close>:
  group 2 is the scheme, group 3 the host, group 4 the port with its colon, group 5 the
  port's digits, group 6 the base path. Groups 2, 4 and 5 are \<open>None\<close> when their optional
  part took no part in the match; group 6 is then the empty string.
\<close>

record url_groups =
  group2 :: "string option"
  group3 :: string
  group4 :: "string option"
  group5 :: "string option"
  group6 :: string

text \<open>\<^verbatim>\<open>(/\w+)*\<close> up to the end of the text.\<close>

function match_segments :: "string \<Rightarrow> bool" where
  "match_segments [] = True"
| "match_segments (c # cs) =
     (c = CHR ''/'' \<and> takeWhile is_word_char cs \<noteq> [] \<and> match_segments (dropWhile is_word_char cs))"
  by pat_completeness auto
termination
  by (relation "measure length") (auto simp: length_dropWhile_le less_Suc_eq_le)

text \<open>
  \<^verbatim>\<open>([\w.]+)(:(\d{1,5}))?((/\w+)*)$\<close>. Every repetition is greedy, and the character
  after each part is outside that part's class, so the longest run is the only one that
  lets the rest match.
\<close>

definition match_host_port_path :: "string \<Rightarrow> url_groups option" where
  "match_host_port_path s =
     (let host = takeWhile is_host_char s; r = dropWhile is_host_char s in
      if host = [] then None
      else
        (case r of
           [] \<Rightarrow> Some \<lparr>group2 = None, group3 = host, group4 = None, group5 = None, group6 = []\<rparr>
         | c # r' \<Rightarrow>
             if c = CHR '':'' then
               (let ds = takeWhile is_digit_char r'; m = dropWhile is_digit_char r' in
                if 1 \<le> length ds \<and> length ds \<le> 5 \<and> match_segments m
                then Some \<lparr>group2 = None, group3 = host, group4 = Some (CHR '':'' # ds),
                       group5 = Some ds, group6 = m\<rparr>
                else None)
             else if match_segments r
             then Some \<lparr>group2 = None, group3 = host, group4 = None, group5 = None, group6 = r\<rparr>
             else None))"

text \<open>
  \<open>get_base_url_pattern().match(url)\<close>. \<^verbatim>\<open>$\<close> also matches just before a newline that
  ends the text. The optional scheme is tried first; without it the text is matched from
  its start again.
\<close>

definition base_url_match :: "string \<Rightarrow> url_groups option" where
  "base_url_match url =
     (let s = (if url \<noteq> [] \<and> last url = CHR 0x0A then butlast url else url);
          w = takeWhile is_word_char s; r = dropWhile is_word_char s
      in if w \<noteq> [] \<and> take 3 r = ''://'' then
           (case match_host_port_path (drop 3 r) of
              Some g \<Rightarrow> Some (g\<lparr>group2 := Some w\<rparr>)
            | None \<Rightarrow> match_host_port_path s)
         else match_host_port_path s)"

definition check_base_url :: "string \<Rightarrow> error + string" where
  "check_base_url url =
     (case base_url_match url of
        None \<Rightarrow> Inl ValueError
      | Some g \<Rightarrow>
          if (case group2 g of
                None \<Rightarrow> False
              | Some raw_schema \<Rightarrow> Schema_get_key_by_value (lower raw_schema) = None)
          then Inl ValueError
          else
            (case group5 g of
               None \<Rightarrow> Inr url
             | Some raw_port \<Rightarrow>
                 if py_int raw_port \<le> 65535 then Inr url else Inl ValueError))"

section \<open>model/config\_file.py: the configuration classes\<close>

datatype body_data = Str string | Bytes bytes

record HttpBody =
  body_file :: "string option"
  data :: body_data
  data_encoding :: "string option"

record RequestLogConfig =
  headers_enabled :: "bool option"
  body_enabled :: "bool option"
  body_as_file :: "bool option"
  body_files_folder :: "string option"
  body_type :: "BodyType option"
  body_encoding :: "string option"
  log_file :: "string option"
  log_console :: "bool option"

record RequestConfig =
  mapping :: string
  request_method :: RequestMethod
  parameters :: "(string, string) dict option"
  request_body :: "HttpBody option"
  response_id :: string

record ResponseConfig =
  headers :: "(string, string) dict"
  body :: HttpBody
  status :: int
  seconds_delay :: "real option"
  request_log_config :: RequestLogConfig

record SslConfig =
  keyfile :: "string option"
  certfile :: "string option"
  keyfile_password :: "string option"
  ca_certs :: "string option"

text \<open>
  The field \<open>requests_ids\<close> of \<open>ServerConfig\<close> is a \<open>set\<close>. A set object is given by the
  list of its elements, each once, in the order in which the set is iterated.
\<close>

record ServerConfig =
  server_alias :: "string option"
  base_url :: string
  requests_ids :: "string list"
  default_response_id :: string
  ssl_config :: "SslConfig option"

record Config =
  servers :: "ServerConfig list"
  requests :: "(string, RequestConfig) dict"
  responses :: "(string, ResponseConfig) dict"
  global_request_log_config :: RequestLogConfig

text \<open>
  The properties of \<open>ServerConfig\<close>. Each matches the base URL again and reads a group of
  the match; on a URL that does not match, \<open>.group\<close> is read from \<open>None\<close>.
\<close>

definition host :: "ServerConfig \<Rightarrow> error + string" where
  "host sc = (case base_url_match (base_url sc) of None \<Rightarrow> Inl AttributeError | Some g \<Rightarrow> Inr (group3 g))"

definition port :: "ServerConfig \<Rightarrow> error + nat" where
  "port sc =
     (case base_url_match (base_url sc) of
        None \<Rightarrow> Inl AttributeError
      | Some g \<Rightarrow> (case group5 g of None \<Rightarrow> Inr 80 | Some raw_port \<Rightarrow> Inr (py_int raw_port)))"

definition schema :: "ServerConfig \<Rightarrow> error + Schema option" where
  "schema sc =
     (case base_url_match (base_url sc) of
        None \<Rightarrow> Inl AttributeError
      | Some g \<Rightarrow>
          (case group2 g of
             None \<Rightarrow> Inr (Some HTTP)
           | Some raw_schema \<Rightarrow> Inr (Schema_get_key_by_value (lower raw_schema))))"

definition base_mapping :: "ServerConfig \<Rightarrow> error + string" where
  "base_mapping sc =
     (case base_url_match (base_url sc) of None \<Rightarrow> Inl AttributeError | Some g \<Rightarrow> Inr (group6 g))"

text \<open>\<open>group(3) + group(4) + group(6)\<close>: without a port, a string is added to \<open>None\<close>.\<close>

definition identity :: "ServerConfig \<Rightarrow> error + string" where
  "identity sc =
     (case base_url_match (base_url sc) of
        None \<Rightarrow> Inl AttributeError
      | Some g \<Rightarrow> (case group4 g of None \<Rightarrow> Inl TypeError | Some p \<Rightarrow> Inr (group3 g @ p @ group6 g)))"

section \<open>What the program takes from outside\<close>

text \<open>
  The file system, the codecs, libmagic and the iteration order of a \<open>set\<close> are not code
  of this program. They are taken as parameters: \<open>read_file\<close> is \<open>open(name, "rb").read()\<close>
  (\<open>None\<close> when it raises), \<open>encode\<close> is \<open>str.encode(encoding)\<close>, \<open>decode\<close> is
  \<open>bytes.decode(encoding)\<close>, \<open>guess_mime_type\<close> is \<open>Magic(mime=True).from_buffer\<close>, and
  \<open>set_order\<close> is the set that \<open>set(xs)\<close> builds from a list: its elements, each once,
  in the order in which that set is iterated. The order follows from the hashes of the
  elements and, where these collide, from the order of insertion.
\<close>

record py_env =
  read_file :: "string \<Rightarrow> bytes option"
  encode :: "string \<Rightarrow> string \<Rightarrow> error + bytes"
  decode :: "string \<Rightarrow> bytes \<Rightarrow> error + string"
  guess_mime_type :: "bytes \<Rightarrow> string"
  set_order :: "string list \<Rightarrow> string list"

text \<open>
  \<open>HttpBody.bytes\<close>: the file's content when a file is named, else the data, encoded when
  it is a \<open>str\<close>. Whatever is raised on the way (an unreadable file, an unknown encoding,
  a character the encoding lacks, \<open>None\<close> for the encoding) ends in the empty body.
\<close>

definition HttpBody_bytes :: "py_env \<Rightarrow> HttpBody \<Rightarrow> bytes" where
  "HttpBody_bytes env b =
     (case body_file b of
        Some name \<Rightarrow> (case read_file env name of Some content \<Rightarrow> content | None \<Rightarrow> [])
      | None \<Rightarrow>
          (case data b of
             Str s \<Rightarrow>
               (case data_encoding b of
                  None \<Rightarrow> []
                | Some enc \<Rightarrow> (case encode env enc s of Inr bs \<Rightarrow> bs | Inl e \<Rightarrow> []))
           | Bytes bs \<Rightarrow> bs))"

section \<open>The inbound request\<close>

text \<open>
  What the program reads of a Starlette \<open>Request\<close>: the method, \<open>scope["path"]\<close>, the
  query parameters and the headers as the lists of pairs they were sent as, and the body
  that \<open>await request.body()\<close> gives.
\<close>

record Request =
  http_method :: string
  path :: string
  query_params :: "(string \<times> string) list"
  http_headers :: "(string \<times> string) list"
  raw_body :: bytes

text \<open>
  \<open>.items()\<close> of Starlette's \<open>QueryParams\<close> is the view of the dict it builds from its
  pairs: one entry per key, a repeated key keeping its last value.
\<close>

definition multi_dict_items :: "(string \<times> string) list \<Rightarrow> (string, string) dict" where
  "multi_dict_items pairs = fold (\<lambda>(k, v) d. AList.update k v d) pairs []"

definition request_params_to_dict :: "Request \<Rightarrow> (string, string) dict" where
  "request_params_to_dict request =
     fold (\<lambda>(k, v) request_params. AList.update k v request_params)
       (multi_dict_items (query_params request)) []"

text \<open>
  \<open>.items()\<close> of Starlette's \<open>Headers\<close> lists every pair as it was sent, so a name sent
  more than once is in the dict with its last value.
\<close>

definition request_headers_to_dict :: "Request \<Rightarrow> (string, string) dict" where
  "request_headers_to_dict request =
     fold (\<lambda>(k, v) request_headers. AList.update k v request_headers)
       (http_headers request) []"

text \<open>
  \<open>Request.body\<close> is declared \<open>async def\<close>: the call \<open>request.body()\<close> gives a coroutine
  object, and only \<open>await\<close> gives the bytes. \<open>!=\<close> between a coroutine object and anything
  but itself is true.
\<close>

datatype py_object = PyBytes bytes | PyCoroutine

definition Request_body :: "Request \<Rightarrow> py_object" where
  "Request_body request = PyCoroutine"

definition await_Request_body :: "Request \<Rightarrow> bytes" where
  "await_Request_body request = raw_body request"

fun py_ne :: "py_object \<Rightarrow> py_object \<Rightarrow> bool" where
  "py_ne (PyBytes a) (PyBytes b) = (a \<noteq> b)"
| "py_ne PyCoroutine y = True"
| "py_ne x PyCoroutine = True"

section \<open>core/process\_middleware.py: matching\<close>

definition is_request_fit :: "py_env \<Rightarrow> Request \<Rightarrow> RequestConfig \<Rightarrow> ServerConfig \<Rightarrow> error + bool" where
  "is_request_fit env request request_config server_config =
     (if http_method request \<noteq> RequestMethod_value (request_method request_config) then Inr False
      else
        (case base_mapping server_config of
           Inl e \<Rightarrow> Inl e
         | Inr bm \<Rightarrow>
             if path request \<noteq> bm @ mapping request_config then Inr False
             else if (case parameters request_config of
                        None \<Rightarrow> False
                      | Some ps \<Rightarrow> \<not> dict_eq ps (request_params_to_dict request))
             then Inr False
             else if (case request_body request_config of
                        None \<Rightarrow> False
                      | Some b \<Rightarrow> py_ne (Request_body request) (PyBytes (HttpBody_bytes env b)))
             then Inr False
             else Inr True))"

section \<open>hooks/responses.py\<close>

definition digit_char :: "nat \<Rightarrow> char" where
  "digit_char n = ''0123456789abcdef'' ! n"

text \<open>\<open>str(n)\<close> for a length.\<close>

fun py_str_nat :: "nat \<Rightarrow> string" where
  "py_str_nat n =
     (if n < 10 then [digit_char n] else py_str_nat (n div 10) @ [digit_char (n mod 10)])"

declare py_str_nat.simps [simp del]

definition latin1_encode :: "string \<Rightarrow> bytes" where
  "latin1_encode s = map of_char s"

record RawResponse =
  response_body :: bytes
  status_code :: int
  raw_headers :: "(bytes \<times> bytes) list"

text \<open>
  \<open>RawResponse.init_headers\<close>. The length is stored in the dict it was given under the
  key \<open>content-length\<close>; then every key is lowered. The result is the dict as it is left
  and the list of raw headers.
\<close>

definition init_headers ::
  "bytes \<Rightarrow> (string, string) dict option \<Rightarrow> (string, string) dict \<times> (bytes \<times> bytes) list" where
  "init_headers self_body hdrs =
     (let content_length = length self_body;
          h0 = (case hdrs of None \<Rightarrow> [] | Some h \<Rightarrow> h);
          h1 = AList.update ''content-length'' (py_str_nat content_length) h0
      in (h1, map (\<lambda>(k, v). (latin1_encode (lower k), latin1_encode v)) h1))"

text \<open>
  \<open>RawResponse(content, status_code=..., headers=...)\<close>: Starlette's constructor keeps
  the status, renders \<open>bytes\<close> content as it is and calls \<open>init_headers\<close>.
\<close>

definition new_RawResponse :: "bytes \<Rightarrow> int \<Rightarrow> (string, string) dict \<Rightarrow> RawResponse" where
  "new_RawResponse content st hdrs =
     \<lparr>response_body = content, status_code = st, raw_headers = snd (init_headers content (Some hdrs))\<rparr>"

section \<open>core/process\_middleware.py: answering\<close>

text \<open>
  \<open>request_response_function\<close>, for what it returns. The logging decorator runs first
  and keeps every failure to itself; the delay changes no value.
\<close>

definition request_response_function ::
  "py_env \<Rightarrow> Request \<Rightarrow> RequestConfig option \<Rightarrow> ResponseConfig \<Rightarrow> ServerConfig \<Rightarrow> RawResponse" where
  "request_response_function env request request_config response_config server_config =
     new_RawResponse (HttpBody_bytes env (body response_config)) (status response_config)
       (headers response_config)"



text \<open>
  The Starlette application of one server: the route that takes every path, and the
  handler of \<open>HTTPException\<close>.
\<close>

record Application =
  route_requests :: "RequestConfig list"
  route_server :: ServerConfig
  route_responses :: "(string, ResponseConfig) dict"
  handler_response :: ResponseConfig
  handler_server :: ServerConfig


text \<open>\<open>config.requests[request_id]\<close> for each id, in the order given.\<close>

fun lookup_requests :: "(string, RequestConfig) dict \<Rightarrow> string list \<Rightarrow> error + RequestConfig list" where
  "lookup_requests reqs [] = Inr []"
| "lookup_requests reqs (request_id # ids) =
     (case map_of reqs request_id of
        None \<Rightarrow> Inl KeyError
      | Some rc \<Rightarrow>
          (case lookup_requests reqs ids of Inl e \<Rightarrow> Inl e | Inr rcs \<Rightarrow> Inr (rc # rcs)))"

text \<open>
  The first loop of \<open>create_server_routes\<close>: for each server, under its identity, the
  rules its \<open>requests_ids\<close> name, in the order the set is iterated.
\<close>

fun collect_servers_requests ::
  "py_env \<Rightarrow> Config \<Rightarrow> ServerConfig list \<Rightarrow> (string, RequestConfig list) dict
     \<Rightarrow> error + (string, RequestConfig list) dict" where
  "collect_servers_requests env config [] servers_requests = Inr servers_requests"
| "collect_servers_requests env config (server_config # rest) servers_requests =
     (case identity server_config of
        Inl e \<Rightarrow> Inl e
      | Inr ident \<Rightarrow>
          (case lookup_requests (requests config) (requests_ids server_config) of
             Inl e \<Rightarrow> Inl e
           | Inr rcs \<Rightarrow>
               collect_servers_requests env config rest (AList.update ident rcs servers_requests)))"

text \<open>The second loop: the route of each identity.\<close>

record Route =
  endpoint_requests :: "RequestConfig list"
  endpoint_server :: ServerConfig
  endpoint_responses :: "(string, ResponseConfig) dict"

fun build_server_routes ::
  "Config \<Rightarrow> (string, RequestConfig list) dict \<Rightarrow> ServerConfig list \<Rightarrow> (string, Route) dict
     \<Rightarrow> error + (string, Route) dict" where
  "build_server_routes config servers_requests [] server_routes = Inr server_routes"
| "build_server_routes config servers_requests (server_config # rest) server_routes =
     (case identity server_config of
        Inl e \<Rightarrow> Inl e
      | Inr ident \<Rightarrow>
          (case map_of servers_requests ident of
             None \<Rightarrow> Inl KeyError
           | Some server_requests \<Rightarrow>
               build_server_routes config servers_requests rest
                 (AList.update ident
                    \<lparr>endpoint_requests = server_requests, endpoint_server = server_config,
                       endpoint_responses = responses config\<rparr>
                    server_routes)))"

definition create_server_routes :: "py_env \<Rightarrow> Config \<Rightarrow> error + (string, Route) dict" where
  "create_server_routes env config =
     (case collect_servers_requests env config (servers config) [] of
        Inl e \<Rightarrow> Inl e
      | Inr servers_requests \<Rightarrow> build_server_routes config servers_requests (servers config) [])"

section \<open>model/config\_file.py: validation\<close>

definition validate_config :: "SslConfig \<Rightarrow> error + unit" where
  "validate_config ssl = (if certfile ssl = None \<and> ca_certs ssl = None then Inl ValueError else Inr ())"

definition validate_protocol_configured :: "ServerConfig \<Rightarrow> error + unit" where
  "validate_protocol_configured sc =
     (case schema sc of
        Inl e \<Rightarrow> Inl e
      | Inr sch \<Rightarrow>
          if sch = Some HTTPS \<and> ssl_config sc = None then Inl ValueError
          else (case ssl_config sc of None \<Rightarrow> Inr () | Some ssl \<Rightarrow> validate_config ssl))"

text \<open>
  \<open>Config.validate_request_response_ids\<close>. The first loop gathers, server by server, the
  request ids and the default response id; the second adds the response id of every
  request of the mapping. Ids that are no key of their mapping are an error.
\<close>

definition validate_request_response_ids :: "Config \<Rightarrow> error + unit" where
  "validate_request_response_ids config =
     (let (server_requests, default_responses) =
            fold (\<lambda>server (sr, rr). (sr \<union> set (requests_ids server), insert (default_response_id server) rr))
              (servers config) ({}, {});
          reqs = set (map fst (requests config));
          request_responses =
            fold (\<lambda>request rr. insert (response_id request) rr) (map snd (requests config))
              default_responses;
          resps = set (map fst (responses config));
          not_described_requests = server_requests - reqs;
          not_described_responses = request_responses - resps
      in if not_described_requests \<noteq> {} then Inl ValueError
         else if not_described_responses \<noteq> {} then Inl ValueError
         else Inr ())"

fun validate_servers :: "ServerConfig list \<Rightarrow> error + unit" where
  "validate_servers [] = Inr ()"
| "validate_servers (server_config # rest) =
     (case validate_protocol_configured server_config of
        Inl e \<Rightarrow> Inl e
      | Inr u \<Rightarrow> validate_servers rest)"

definition validate :: "Config \<Rightarrow> error + unit" where
  "validate config =
     (case validate_servers (servers config) of
        Inl e \<Rightarrow> Inl e
      | Inr u \<Rightarrow> validate_request_response_ids config)"

text \<open>
  \<open>parse_config\<close>, from the object pydantic has built: a \<open>ValueError\<close> of the validation
  leaves as an \<open>IOError\<close>, any other exception as it is.
\<close>

definition parse_config :: "Config \<Rightarrow> error + Config" where
  "parse_config config =
     (case validate config of
        Inl e \<Rightarrow> (if e = ValueError then Inl IOError else Inl e)
      | Inr u \<Rightarrow> Inr config)"

text \<open>
  The invariant of the configuration in the words of its description: every request id
  of a server and every response id of a request or of a server's default is a key of
  its mapping.
\<close>

definition all_ids_described :: "Config \<Rightarrow> bool" where
  "all_ids_described config =
     ((\<forall>server \<in> set (servers config).
          set (requests_ids server) \<subseteq> fst ` set (requests config)
          \<and> default_response_id server \<in> fst ` set (responses config))
      \<and> (\<forall>request \<in> snd ` set (requests config).
          response_id request \<in> fst ` set (responses config)))"

section \<open>core/server\_processing.py\<close>

text \<open>
  A \<open>multiprocessing.Process\<close> is constructed, started, and is alive until it has
  stopped. \<open>terminate()\<close> sends the signal; the process stays alive for a number of
  further observations that the program does not choose (\<open>Stopping n\<close>), and a process
  that was started runs until it is terminated.
\<close>

datatype proc_status = Initial | Running | Stopping nat | Stopped

record ServerProcess =
  application :: Application
  server :: ServerConfig
  proc_status :: proc_status

definition is_alive :: "ServerProcess \<Rightarrow> bool" where
  "is_alive p = (case proc_status p of Running \<Rightarrow> True | Stopping n \<Rightarrow> True | Initial \<Rightarrow> False | Stopped \<Rightarrow> False)"

text \<open>\<open>Process.start()\<close>: a process is started once.\<close>

definition start :: "ServerProcess \<Rightarrow> error + ServerProcess" where
  "start p = (if proc_status p = Initial then Inr (p\<lparr>proc_status := Running\<rparr>) else Inl AssertionError)"

text \<open>\<open>Process.terminate()\<close> on a live process; \<open>latency\<close> is how long it takes to stop.\<close>

definition terminate :: "(ServerProcess \<Rightarrow> nat) \<Rightarrow> ServerProcess \<Rightarrow> ServerProcess" where
  "terminate latency p =
     (case proc_status p of Running \<Rightarrow> p\<lparr>proc_status := Stopping (latency p)\<rparr> | _ \<Rightarrow> p)"

text \<open>One observation later.\<close>

definition tick_process :: "ServerProcess \<Rightarrow> ServerProcess" where
  "tick_process p =
     (case proc_status p of
        Stopping 0 \<Rightarrow> p\<lparr>proc_status := Stopped\<rparr>
      | Stopping (Suc n) \<Rightarrow> p\<lparr>proc_status := Stopping n\<rparr>
      | _ \<Rightarrow> p)"

text \<open>
  The processes of the program: those the \<open>ProcessesController\<close> holds, and those it
  held before and let go of, which live on until they stop. \<open>logger_config\<close> is
  \<open>request_logger.log_config\<close>.
\<close>

record main_state =
  processes :: "ServerProcess list"
  released :: "ServerProcess list"
  logger_config :: RequestLogConfig

definition is_running :: "main_state \<Rightarrow> bool" where
  "is_running st = list_ex is_alive (processes st)"

definition terminate_all :: "(ServerProcess \<Rightarrow> nat) \<Rightarrow> main_state \<Rightarrow> main_state" where
  "terminate_all latency st =
     (if is_running st
      then st\<lparr>processes := map (\<lambda>process. if is_alive process then terminate latency process else process)
                               (processes st)\<rparr>
      else st)"

text \<open>The setter of \<open>processes\<close>.\<close>

definition set_processes :: "(ServerProcess \<Rightarrow> nat) \<Rightarrow> ServerProcess list \<Rightarrow> main_state \<Rightarrow> main_state" where
  "set_processes latency new st =
     (let st1 = (if is_running st then terminate_all latency st else st)
      in st1\<lparr>processes := new, released := released st1 @ processes st1\<rparr>)"

text \<open>\<open>for process in self.processes: process.start()\<close>.\<close>

fun start_each :: "ServerProcess list \<Rightarrow> error option \<times> ServerProcess list" where
  "start_each [] = (None, [])"
| "start_each (process # rest) =
     (case start process of
        Inl e \<Rightarrow> (Some e, process # rest)
      | Inr started \<Rightarrow> (case start_each rest of (e, rest') \<Rightarrow> (e, started # rest')))"

definition start_all :: "main_state \<Rightarrow> error option \<times> main_state" where
  "start_all st = (case start_each (processes st) of (e, ps) \<Rightarrow> (e, st\<lparr>processes := ps\<rparr>))"

definition tick :: "main_state \<Rightarrow> main_state" where
  "tick st = st\<lparr>processes := map tick_process (processes st), released := map tick_process (released st)\<rparr>"

text \<open>\<open>while controller.is_running: pass\<close>, one observation per round.\<close>

partial_function (option) wait_while_running :: "main_state \<Rightarrow> main_state option" where
  "wait_while_running st = (if is_running st then wait_while_running (tick st) else Some st)"

section \<open>core/process\_middleware.py: the processes of a configuration\<close>

fun create_processes ::
  "Config \<Rightarrow> (string, Route) dict \<Rightarrow> ServerConfig list \<Rightarrow> error + ServerProcess list" where
  "create_processes config endpoints [] = Inr []"
| "create_processes config endpoints (sc # rest) =
     (case identity sc of
        Inl e \<Rightarrow> Inl e
      | Inr ident \<Rightarrow>
          (case map_of (responses config) (default_response_id sc) of
             None \<Rightarrow> Inl KeyError
           | Some default_response \<Rightarrow>
               (case map_of endpoints ident of
                  None \<Rightarrow> Inl KeyError
                | Some r \<Rightarrow>
                    (case create_processes config endpoints rest of
                       Inl e \<Rightarrow> Inl e
                     | Inr ps \<Rightarrow>
                         Inr (\<lparr>application =
                                 \<lparr>route_requests = endpoint_requests r,
                                    route_server = endpoint_server r,
                                    route_responses = endpoint_responses r,
                                    handler_response = default_response,
                                    handler_server = sc\<rparr>,
                               server = sc, proc_status = Initial\<rparr> # ps)))))"

definition get_server_processes :: "py_env \<Rightarrow> Config \<Rightarrow> error + ServerProcess list" where
  "get_server_processes env config =
     (case create_server_routes env config of
        Inl e \<Rightarrow> Inl e
      | Inr endpoints \<Rightarrow> create_processes config endpoints (servers config))"

section \<open>main.py\<close>

text \<open>
  The start of \<open>main\<close>, from the object pydantic has built to \<open>controller.start_all()\<close>.
  An exception on the way ends the program; the state is given as it is when the
  exception is raised.
\<close>

definition main_start :: "py_env \<Rightarrow> Config \<Rightarrow> error option \<times> main_state" where
  "main_start env parsed =
     (let st0 = \<lparr>processes = [], released = [], logger_config = RequestLogConfig.make None None None None None None None None\<rparr>
      in case parse_config parsed of
           Inl e \<Rightarrow> (Some e, st0)
         | Inr config \<Rightarrow>
             (let st1 = st0\<lparr>logger_config := global_request_log_config config\<rparr>
              in case get_server_processes env config of
                   Inl e \<Rightarrow> (Some e, st1)
                 | Inr ps \<Rightarrow> start_all (st1\<lparr>processes := ps\<rparr>)))"

text \<open>
  The body of \<open>if config_loader.is_changed:\<close> in the loop of \<open>main\<close>. \<open>parsed\<close> is what
  \<open>parse_config(parse_from_yaml(...))\<close> gave: an \<open>IOError\<close> is logged and leaves \<open>config\<close>
  at \<open>None\<close>. The test that follows is on \<open>config_loader\<close>, which is never \<open>None\<close>, so
  the steps after it run in either case.
\<close>

definition apply_changes ::
  "py_env \<Rightarrow> (ServerProcess \<Rightarrow> nat) \<Rightarrow> error + Config \<Rightarrow> main_state \<Rightarrow> (error option \<times> main_state) option" where
  "apply_changes env latency parsed st =
     (case (case parsed of
              Inl e \<Rightarrow> (if e = IOError then Inr None else Inl e)
            | Inr c \<Rightarrow> Inr (Some c)) of
        Inl e \<Rightarrow> Some (Some e, st)
      | Inr config \<Rightarrow>
          (case wait_while_running (terminate_all latency st) of
             None \<Rightarrow> None
           | Some st1 \<Rightarrow>
               (case config of
                  None \<Rightarrow> Some (Some AttributeError, st1)
                | Some c \<Rightarrow>
                    (let st2 = st1\<lparr>logger_config := global_request_log_config c\<rparr>
                     in case get_server_processes env c of
                          Inl e \<Rightarrow> Some (Some e, st2)
                        | Inr ps \<Rightarrow> Some (start_all (set_processes latency ps st2))))))"

text \<open>
  One round of the loop with its \<open>try\<close>: an exception that leaves the body is logged, and
  \<open>finally\<close> terminates what the controller holds.
\<close>

definition reload_round ::
  "py_env \<Rightarrow> (ServerProcess \<Rightarrow> nat) \<Rightarrow> error + Config \<Rightarrow> main_state \<Rightarrow> (error option \<times> main_state) option" where
  "reload_round env latency parsed st =
     (case apply_changes env latency parsed st of
        None \<Rightarrow> None
      | Some (None, st') \<Rightarrow> Some (None, st')
      | Some (Some e, st') \<Rightarrow> Some (Some e, terminate_all latency st'))"

text \<open>
  The states the program passes through during the body above, one after each step that
  can change what is alive. \<open>wait_states\<close> lists the states the loop
  \<open>while controller.is_running: pass\<close> observes, the last being the one it leaves with.
\<close>

partial_function (option) wait_states :: "main_state \<Rightarrow> main_state list option" where
  "wait_states st =
     (if is_running st then Option.bind (wait_states (tick st)) (\<lambda>later. Some (st # later))
      else Some [st])"

text \<open>
  The lists of processes after each \<open>process.start()\<close> of \<open>start_all\<close>; \<open>started\<close> holds
  the processes started so far.
\<close>

fun start_each_states :: "ServerProcess list \<Rightarrow> ServerProcess list \<Rightarrow> ServerProcess list list" where
  "start_each_states started [] = []"
| "start_each_states started (process # rest) =
     (case start process of
        Inl e \<Rightarrow> []
      | Inr p \<Rightarrow> (started @ p # rest) # start_each_states (started @ [p]) rest)"

definition start_all_states :: "main_state \<Rightarrow> main_state list" where
  "start_all_states st = map (\<lambda>ps. st\<lparr>processes := ps\<rparr>) (start_each_states [] (processes st))"

text \<open>
  The states of \<open>apply_changes\<close>: the state it starts in, the states of the wait after
  \<open>terminate_all\<close>, the state with the new logging configuration, the state after the
  assignment of the new processes, and the states after each start.
\<close>

definition apply_changes_states ::
  "py_env \<Rightarrow> (ServerProcess \<Rightarrow> nat) \<Rightarrow> error + Config \<Rightarrow> main_state \<Rightarrow> main_state list option" where
  "apply_changes_states env latency parsed st =
     (case (case parsed of
              Inl e \<Rightarrow> (if e = IOError then Inr None else Inl e)
            | Inr c \<Rightarrow> Inr (Some c)) of
        Inl e \<Rightarrow> Some [st]
      | Inr config \<Rightarrow>
          (case wait_states (terminate_all latency st) of
             None \<Rightarrow> None
           | Some waited \<Rightarrow>
               (case config of
                  None \<Rightarrow> Some (st # waited)
                | Some c \<Rightarrow>
                    (let st2 = (last waited)\<lparr>logger_config := global_request_log_config c\<rparr>
                     in case get_server_processes env c of
                          Inl e \<Rightarrow> Some (st # waited @ [st2])
                        | Inr ps \<Rightarrow>
                            (let st3 = set_processes latency ps st2
                             in Some (st # waited @ [st2, st3] @ start_all_states st3))))))"

text \<open>
  Two generations of listeners are alive together when a process that the controller has
  let go of is alive while a process that it holds is alive.
\<close>

definition generations_overlap :: "main_state \<Rightarrow> bool" where
  "generations_overlap st = (list_ex is_alive (released st) \<and> list_ex is_alive (processes st))"

section \<open>core/config\_loader.py\<close>

text \<open>
  The fields of \<open>ConfigFileLoader\<close>. Times and the interval are in seconds. Reading the
  file is given by the moment of the call (\<open>datetime.now()\<close>) and by the content read,
  \<open>None\<close> when the file cannot be read; \<open>sha\<close> stands for \<open>hashlib.sha256(...).hexdigest()\<close>.
\<close>

record ConfigFileLoader =
  filename :: string
  last_read :: "real option"
  read_interval :: real
  cached_value :: "bytes option"
  file_hash :: "string option"
  is_changed :: bool

definition new_ConfigFileLoader :: "string \<Rightarrow> ConfigFileLoader" where
  "new_ConfigFileLoader name =
     \<lparr>filename = name, last_read = None, read_interval = 3, cached_value = None,
        file_hash = None, is_changed = False\<rparr>"

text \<open>\<open>_read_file\<close>: the moment is recorded before the file is opened.\<close>

definition read_file_at :: "real \<Rightarrow> bytes option \<Rightarrow> ConfigFileLoader \<Rightarrow> (error + bytes) \<times> ConfigFileLoader" where
  "read_file_at now content l =
     (case content of
        None \<Rightarrow> (Inl IOError, l\<lparr>last_read := Some now\<rparr>)
      | Some v \<Rightarrow> (Inr v, l\<lparr>last_read := Some now\<rparr>))"

definition get_file_value ::
  "(bytes \<Rightarrow> string) \<Rightarrow> real \<Rightarrow> bytes option \<Rightarrow> ConfigFileLoader \<Rightarrow> (error + bytes) \<times> ConfigFileLoader" where
  "get_file_value sha now content l =
     (case cached_value l of
        Some v \<Rightarrow> (Inr v, l)
      | None \<Rightarrow>
          (case read_file_at now content l of
             (Inl e, l1) \<Rightarrow> (Inl e, l1)
           | (Inr v, l1) \<Rightarrow> (Inr v, l1\<lparr>cached_value := Some v, file_hash := Some (sha v)\<rparr>)))"

definition reset_changed :: "ConfigFileLoader \<Rightarrow> ConfigFileLoader" where
  "reset_changed l = l\<lparr>is_changed := False\<rparr>"

text \<open>
  \<open>do_load\<close>. The condition reads \<open>(not changed and last_read is None) or
  (last_read + interval <= now)\<close>; its second part adds to \<open>None\<close> when nothing was read
  and the flag is set.
\<close>

definition do_load ::
  "(bytes \<Rightarrow> string) \<Rightarrow> real \<Rightarrow> bytes option \<Rightarrow> ConfigFileLoader \<Rightarrow> error option \<times> ConfigFileLoader" where
  "do_load sha now content l =
     (case (if \<not> is_changed l \<and> last_read l = None then Inr True
            else (case last_read l of
                    None \<Rightarrow> Inl TypeError
                  | Some t \<Rightarrow> Inr (t + read_interval l \<le> now))) of
        Inl e \<Rightarrow> (Some e, l)
      | Inr False \<Rightarrow> (None, l)
      | Inr True \<Rightarrow>
          (case read_file_at now content l of
             (Inl e, l1) \<Rightarrow> (Some e, l1)
           | (Inr v, l1) \<Rightarrow>
               (let l2 = l1\<lparr>cached_value := Some v\<rparr>; hash_value = sha v
                in if Some hash_value \<noteq> file_hash l2
                   then (None, l2\<lparr>is_changed := True, file_hash := Some hash_value\<rparr>)
                   else (None, l2))))"

text \<open>
  The calls the loop of \<open>main\<close> makes on the loader, each with the moment it is made at.
  \<open>run_calls\<close> makes them one after the other on a file whose content stays \<open>content\<close>,
  up to the first that raises, and counts the calls of \<open>do_load\<close> that set the flag: after
  such a call the flag is up, and it was down before the call or the stored hash was
  replaced by the call (the flag and the hash are assigned together).
\<close>

datatype loader_call = DoLoad real | ResetChanged | GetFileValue real

fun run_calls ::
  "(bytes \<Rightarrow> string) \<Rightarrow> bytes \<Rightarrow> loader_call list \<Rightarrow> ConfigFileLoader \<Rightarrow> nat \<times> ConfigFileLoader" where
  "run_calls sha content [] l = (0, l)"
| "run_calls sha content (DoLoad now # calls) l =
     (case do_load sha now (Some content) l of
        (e, l') \<Rightarrow>
          (let n = (if is_changed l' \<and> (\<not> is_changed l \<or> file_hash l' \<noteq> file_hash l) then 1 else 0)
           in if e = None then (case run_calls sha content calls l' of (m, l'') \<Rightarrow> (n + m, l''))
              else (n, l')))"
| "run_calls sha content (ResetChanged # calls) l = run_calls sha content calls (reset_changed l)"
| "run_calls sha content (GetFileValue now # calls) l =
     (case get_file_value sha now (Some content) l of
        (Inl e, l') \<Rightarrow> (0, l')
      | (Inr v, l') \<Rightarrow> run_calls sha content calls l')"

section \<open>core/logging/requests.py\<close>

text \<open>\<open>sub in s\<close> on strings.\<close>

fun contains :: "string \<Rightarrow> string \<Rightarrow> bool" where
  "contains [] sub = (sub = [])"
| "contains (c # cs) sub = (take (length sub) (c # cs) = sub \<or> contains cs sub)"

text \<open>
  The set literal of \<open>_mime_type_to_body_type\<close>. Its first two string literals stand next
  to each other with no comma between them, which makes them one string.
\<close>

definition text_substrings :: "string list" where
  "text_substrings =
     [''text/'' @ ''application/json'', ''application/x-empty'', ''application/x-www-form-urlencoded'']"

definition mime_type_to_body_type :: "string \<Rightarrow> BodyType" where
  "mime_type_to_body_type media_type =
     (if list_ex (\<lambda>substring. contains media_type substring) text_substrings then TEXT else BYTES)"

text \<open>
  \<open>body_type.TEXT\<close> reads the attribute \<open>TEXT\<close> through a member: it is the member
  \<open>BodyType.TEXT\<close> whatever the member is. As the condition of an \<open>if\<close>, a member of a
  \<open>str\<close> enumeration is true when its value is not the empty string.
\<close>

definition member_TEXT :: "BodyType \<Rightarrow> BodyType" where
  "member_TEXT bt = TEXT"

definition truthy :: "BodyType \<Rightarrow> bool" where
  "truthy m = (BodyType_value m \<noteq> [])"

definition hex_digit :: "nat \<Rightarrow> char" where
  "hex_digit n = ''0123456789abcdef'' ! n"

text \<open>\<open>bytes.hex()\<close>.\<close>

definition bytes_hex :: "bytes \<Rightarrow> string" where
  "bytes_hex bs = concat (map (\<lambda>b. [hex_digit (unat b div 16), hex_digit (unat b mod 16)]) bs)"

text \<open>\<open>a or b\<close> on an optional string: \<open>None\<close> and the empty string give \<open>b\<close>.\<close>

definition py_or :: "string option \<Rightarrow> string \<Rightarrow> string" where
  "py_or a b = (case a of None \<Rightarrow> b | Some s \<Rightarrow> if s = [] then b else s)"

text \<open>
  \<open>RequestLogger.log_request\<close>, the branch that logs the body in the record rather than
  in a file. \<open>log_config\<close> is the logger's own configuration and \<open>response_log_config\<close>
  is \<open>response_config.request_log_config\<close>; a field of the second that is not \<open>None\<close> replaces the field of
  the first. First the body type: the configured one, or for \<open>None\<close> and \<open>AUTO\<close> the one
  of the media type.
\<close>

definition classified_body_type ::
  "py_env \<Rightarrow> RequestLogConfig \<Rightarrow> RequestLogConfig \<Rightarrow> Request \<Rightarrow> bytes \<Rightarrow> BodyType" where
  "classified_body_type env log_config response_log_config request body_bytes =
     (let bt = (case body_type response_log_config of Some t \<Rightarrow> Some t | None \<Rightarrow> body_type log_config);
          of_media_type =
            (let hdrs = request_headers_to_dict request;
                 media_type =
                   py_or (map_of hdrs ''Content-Type'')
                     (py_or (map_of hdrs ''content-type'') (guess_mime_type env body_bytes))
             in mime_type_to_body_type media_type)
      in case bt of
           None \<Rightarrow> of_media_type
         | Some t \<Rightarrow> if t = AUTO then of_media_type else t)"

text \<open>Then the value stored under \<open>body\<close>.\<close>

definition log_request_body ::
  "py_env \<Rightarrow> RequestLogConfig \<Rightarrow> RequestLogConfig \<Rightarrow> Request \<Rightarrow> bytes \<Rightarrow> error + string" where
  "log_request_body env log_config response_log_config request body_bytes =
     (let bt = classified_body_type env log_config response_log_config request body_bytes
      in if truthy (member_TEXT bt)
         then (let enc0 = (case body_encoding response_log_config of
                             Some e \<Rightarrow> Some e
                           | None \<Rightarrow> body_encoding log_config);
                   enc = (case enc0 of None \<Rightarrow> ''utf-8'' | Some e \<Rightarrow> e)
               in decode env enc body_bytes)
         else Inr (bytes_hex body_bytes))"

text \<open>\<open>DefaultRequestLogConfig\<close>.\<close>

definition DefaultRequestLogConfig :: RequestLogConfig where
  "DefaultRequestLogConfig =
     \<lparr>headers_enabled = Some True, body_enabled = Some True, body_as_file = Some False,
        body_files_folder = None, body_type = Some AUTO, body_encoding = Some ''utf-8'',
        log_file = None, log_console = Some True\<rparr>"

section \<open>Configurations used as examples\<close>

text \<open>
  A server on \<open>http://0.0.0.0:8080/api\<close> with the given request ids, a rule for
  \<open>GET /ping\<close> with the given parameters and response id, a \<open>GET\<close> of \<open>/api/ping\<close> with
  the given query, and a response with a body of literal bytes.
\<close>

definition api_server :: "string list \<Rightarrow> ServerConfig" where
  "api_server ids =
     \<lparr>server_alias = None, base_url = ''http://0.0.0.0:8080/api'', requests_ids = ids,
        default_response_id = ''default'', ssl_config = None\<rparr>"

definition ping_rule :: "(string, string) dict option \<Rightarrow> string \<Rightarrow> RequestConfig" where
  "ping_rule ps rid =
     \<lparr>mapping = ''/ping'', request_method = GET, parameters = ps, request_body = None,
        response_id = rid\<rparr>"

definition get_ping :: "(string \<times> string) list \<Rightarrow> Request" where
  "get_ping q =
     \<lparr>http_method = ''GET'', path = ''/api/ping'', query_params = q, http_headers = [],
        raw_body = []\<rparr>"

definition bytes_response :: "bytes \<Rightarrow> ResponseConfig" where
  "bytes_response bs =
     \<lparr>headers = [], body = \<lparr>body_file = None, data = Bytes bs, data_encoding = Some ''utf-8''\<rparr>,
        status = 200, seconds_delay = None,
        request_log_config = RequestLogConfig.make None None None None None None None None\<rparr>"

text \<open>
  Two rules that fit the same requests, \<open>first\<close> answering \<open>1\<close> and \<open>second\<close> answering
  \<open>2\<close>, on one server that declares their ids in the order given. \<open>requests_ids\<close> has the
  type \<open>Set[str]\<close>: the object holds the set built from the declared list.
\<close>

definition overlapping_config :: "py_env \<Rightarrow> string list \<Rightarrow> Config" where
  "overlapping_config env declared =
     \<lparr>servers = [api_server (set_order env declared)],
        requests = [(''first'', ping_rule None ''one''), (''second'', ping_rule None ''two'')],
        responses = [(''default'', bytes_response []), (''one'', bytes_response [49]),
                     (''two'', bytes_response [50])],
        global_request_log_config = DefaultRequestLogConfig\<rparr>"


text \<open>
  An environment for the examples: no file can be read and no codec is known. Sets are
  built as CPython 3.11 builds them when it is run with \<open>PYTHONHASHSEED=4\<close>, where
  \<open>list(set(['first', 'second']))\<close> and \<open>list(set(['second', 'first']))\<close> are both
  \<open>['second', 'first']\<close>; for the other lists, which the examples build from at most one
  id, the elements are kept in the order of their first occurrence.
\<close>

definition example_env :: py_env where
  "example_env =
     \<lparr>read_file = (\<lambda>name. None), encode = (\<lambda>enc s. Inl LookupError),
        decode = (\<lambda>enc bs. Inl LookupError), guess_mime_type = (\<lambda>bs. ''application/octet-stream''),
        set_order = (\<lambda>xs. if xs = [''first'', ''second''] \<or> xs = [''second'', ''first'']
                          then [''second'', ''first''] else remdups xs)\<rparr>"

text \<open>A process of an earlier configuration, in a given state.\<close>

definition idle_process :: "proc_status \<Rightarrow> ServerProcess" where
  "idle_process s =
     \<lparr>application =
        \<lparr>route_requests = [], route_server = api_server [], route_responses = [],
           handler_response = bytes_response [], handler_server = api_server []\<rparr>,
      server = api_server [], proc_status = s\<rparr>"

section \<open>Measures of the wait for the processes to stop\<close>

text \<open>
  What a process that is not running has become when it is no longer alive, and the
  number of observations it is still alive for.
\<close>

definition settled :: "ServerProcess \<Rightarrow> ServerProcess" where
  "settled p = (case proc_status p of Stopping n \<Rightarrow> p\<lparr>proc_status := Stopped\<rparr> | _ \<Rightarrow> p)"

definition remaining :: "ServerProcess \<Rightarrow> nat" where
  "remaining p = (case proc_status p of Stopping n \<Rightarrow> Suc n | _ \<Rightarrow> 0)"

section \<open>Dicts\<close>

lemma dict_eq_set:
  assumes "distinct (map fst a)" "distinct (map fst b)"
  shows "dict_eq a b \<longleftrightarrow> set a = set b"
proof
  assume eq: "dict_eq a b"
  then have len: "length a = length b" and sub: "\<forall>(k, v) \<in> set a. map_of b k = Some v"
    by (auto simp: dict_eq_def list_all_iff)
  have "set a \<subseteq> set b"
    using sub by (auto dest: map_of_SomeD)
  moreover have "card (set a) = card (set b)"
    using assms len by (metis distinct_card distinct_map length_map)
  ultimately show "set a = set b"
    by (simp add: card_subset_eq)
next
  assume eq: "set a = set b"
  have "length a = length b"
    using assms eq by (metis distinct_card distinct_map)
  moreover have "list_all (\<lambda>(k, v). map_of b k = Some v) a"
    using assms(2) eq by (auto simp: list_all_iff)
  ultimately show "dict_eq a b"
    by (simp add: dict_eq_def)
qed

lemma dict_eq_map_of:
  assumes "distinct (map fst a)" "distinct (map fst b)"
  shows "dict_eq a b \<longleftrightarrow> map_of a = map_of b"
  using assms by (simp add: dict_eq_set map_of_inject_set)

lemma distinct_fold_update:
  "distinct (map fst d) \<Longrightarrow> distinct (map fst (fold (\<lambda>(k, v) d. AList.update k v d) xs d))"
  by (induction xs arbitrary: d) (auto simp: distinct_update)

lemma map_of_fold_update:
  "map_of (fold (\<lambda>(k, v) d. AList.update k v d) xs d) = map_of d ++ map_of (rev xs)"
  by (induction xs arbitrary: d) (auto simp: update_conv' map_add_def fun_eq_iff split: option.splits)

lemma distinct_multi_dict_items: "distinct (map fst (multi_dict_items xs))"
  by (simp add: multi_dict_items_def distinct_fold_update)

lemma map_of_multi_dict_items: "map_of (multi_dict_items xs) = map_of (rev xs)"
  by (simp add: multi_dict_items_def map_of_fold_update)

lemma map_of_rev_distinct: "distinct (map fst xs) \<Longrightarrow> map_of (rev xs) = map_of xs"
  by (rule map_of_inject_set[THEN iffD2]) (simp_all add: rev_map[symmetric])

lemma distinct_request_params_to_dict: "distinct (map fst (request_params_to_dict rq))"
  by (simp add: request_params_to_dict_def distinct_fold_update)

lemma map_of_request_params_to_dict:
  "map_of (request_params_to_dict rq) = map_of (rev (query_params rq))"
  by (simp add: request_params_to_dict_def map_of_fold_update map_of_rev_distinct
      distinct_multi_dict_items map_of_multi_dict_items)

section \<open>The examples evaluated\<close>

lemma base_mapping_api_server: "base_mapping (api_server ids) = Inr ''/api''"
  unfolding base_mapping_def api_server_def by code_simp

lemma identity_api_server: "identity (api_server ids) = Inr ''0.0.0.0:8080/api''"
  unfolding identity_def api_server_def by code_simp

lemma api_server_fields:
  "requests_ids (api_server ids) = ids" "default_response_id (api_server ids) = ''default''"
  by (simp_all add: api_server_def)


lemma example_env_single: "set_order example_env [x] = [x]"
  by (simp add: example_env_def)

section \<open>The order of the rules\<close>







section \<open>Query parameters\<close>

text \<open>
  C2, as the code has it. For a rule that declares parameters (and no body), on a request
  whose method and path are those of the rule, the rule fits exactly when the declared
  dict and the dict of the inbound query parameters are the same map: the same keys with
  the same values, a repeated inbound key counting with its last value. A parameter of
  the request that the rule does not list makes the two differ.
\<close>

theorem parameters_fit_iff_equal_dicts:
  assumes "parameters rc = Some ps" and "distinct (map fst ps)"
    and "http_method rq = RequestMethod_value (request_method rc)"
    and "base_mapping sc = Inr bm" and "path rq = bm @ mapping rc"
    and "request_body rc = None"
  shows "is_request_fit env rq rc sc = Inr (map_of ps = map_of (rev (query_params rq)))"
  using assms
  by (simp add: is_request_fit_def dict_eq_map_of distinct_request_params_to_dict
      map_of_request_params_to_dict)

theorem parameters_fit_iff_equal_dicts_witness:
  "\<forall>env. is_request_fit env (get_ping [(''a'', ''1'')]) (ping_rule (Some [(''a'', ''1'')]) ''pong'')
           (api_server []) = Inr True"
proof
  fix env
  show "is_request_fit env (get_ping [(''a'', ''1'')]) (ping_rule (Some [(''a'', ''1'')]) ''pong'')
          (api_server []) = Inr True"
    using parameters_fit_iff_equal_dicts [of "ping_rule (Some [(''a'', ''1'')]) ''pong''"
        "[(''a'', ''1'')]" "get_ping [(''a'', ''1'')]" "api_server []" "''/api''" env]
    by (simp add: ping_rule_def get_ping_def base_mapping_api_server)
qed

text \<open>
  C2 as it is stated fails: the rule with parameters \<open>{"a": "1"}\<close> does not fit the
  request with \<open>a=1\<close> and the extra \<open>b=2\<close>.
\<close>

theorem extra_parameter_counterexample:
  "\<forall>env. is_request_fit env (get_ping [(''a'', ''1''), (''b'', ''2'')])
           (ping_rule (Some [(''a'', ''1'')]) ''pong'') (api_server []) = Inr False"
  by (simp add: is_request_fit_def get_ping_def ping_rule_def base_mapping_api_server
      request_params_to_dict_def multi_dict_items_def dict_eq_def)

text \<open>The other two requests of C2: without \<open>a\<close>, and with \<open>a=2\<close>.\<close>

lemma missing_or_other_parameter_no_fit:
  "is_request_fit env (get_ping []) (ping_rule (Some [(''a'', ''1'')]) ''pong'') (api_server []) = Inr False"
  "is_request_fit env (get_ping [(''a'', ''2'')]) (ping_rule (Some [(''a'', ''1'')]) ''pong'') (api_server []) = Inr False"
  by (simp_all add: is_request_fit_def get_ping_def ping_rule_def base_mapping_api_server
      request_params_to_dict_def multi_dict_items_def dict_eq_def)

section \<open>The body of a rule\<close>

text \<open>
  C4. For a rule that declares a body, a request whose raw body differs from the bytes of
  the declared body is not fitted by the rule; so the rule fits only if the two are
  equal.
\<close>

theorem declared_body_differs_no_fit:
  assumes "request_body rc = Some b" and "raw_body rq \<noteq> HttpBody_bytes env b"
  shows "is_request_fit env rq rc sc \<noteq> Inr True"
  using assms by (auto simp: is_request_fit_def Request_body_def split: sum.splits)

theorem declared_body_differs_no_fit_witness:
  "\<forall>env. is_request_fit env ((get_ping [])\<lparr>raw_body := [2]\<rparr>)
           ((ping_rule None ''pong'')
              \<lparr>request_body := Some \<lparr>body_file = None, data = Bytes [1], data_encoding = None\<rparr>\<rparr>)
           (api_server []) \<noteq> Inr True"
proof
  fix env
  show "is_request_fit env ((get_ping [])\<lparr>raw_body := [2]\<rparr>)
           ((ping_rule None ''pong'')
              \<lparr>request_body := Some \<lparr>body_file = None, data = Bytes [1], data_encoding = None\<rparr>\<rparr>)
           (api_server []) \<noteq> Inr True"
    by (rule declared_body_differs_no_fit
          [of _ "\<lparr>body_file = None, data = Bytes [1], data_encoding = None\<rparr>"])
       (simp_all add: HttpBody_bytes_def)
qed

text \<open>
  The comparison is made with what \<open>request.body()\<close> gives without \<open>await\<close>, which is a
  coroutine object and differs from every \<open>bytes\<close>: a rule that declares a body fits no
  request at all.
\<close>

lemma declared_body_never_fits:
  "request_body rc = Some b \<Longrightarrow> is_request_fit env rq rc sc \<noteq> Inr True"
  by (auto simp: is_request_fit_def Request_body_def split: sum.splits)

section \<open>The base URL\<close>

text \<open>
  C10. For a base URL that matches the pattern: when it has no scheme, the schema of the
  server is \<open>HTTP\<close>, and the URL is accepted exactly when its port, if it has one, is at
  most 65535; when it has no port, the port of the server is 80, and the URL is accepted
  exactly when its scheme, if it has one, is a value of \<open>Schema\<close>.
\<close>

theorem base_url_scheme_and_port_optional:
  assumes "base_url_match (base_url sc) = Some g"
  shows "(group2 g = None \<longrightarrow>
            schema sc = Inr (Some HTTP) \<and>
            (check_base_url (base_url sc) = Inr (base_url sc)
               \<longleftrightarrow> (case group5 g of None \<Rightarrow> True | Some p \<Rightarrow> py_int p \<le> 65535)))
       \<and> (group5 g = None \<longrightarrow>
            port sc = Inr 80 \<and>
            (check_base_url (base_url sc) = Inr (base_url sc)
               \<longleftrightarrow> (case group2 g of None \<Rightarrow> True
                     | Some s \<Rightarrow> Schema_get_key_by_value (lower s) \<noteq> None)))"
  using assms by (auto simp: schema_def port_def check_base_url_def split: option.splits)

theorem base_url_scheme_and_port_optional_witness:
  "schema ((api_server [])\<lparr>base_url := ''example.com:8080/api''\<rparr>) = Inr (Some HTTP)
   \<and> check_base_url ''example.com:8080/api'' = Inr ''example.com:8080/api''
   \<and> port ((api_server [])\<lparr>base_url := ''https://example.com/api''\<rparr>) = Inr 80
   \<and> check_base_url ''https://example.com/api'' = Inr ''https://example.com/api''"
proof -
  have m1: "base_url_match (base_url ((api_server [])\<lparr>base_url := ''example.com:8080/api''\<rparr>))
              = Some \<lparr>group2 = None, group3 = ''example.com'', group4 = Some '':8080'',
                      group5 = Some ''8080'', group6 = ''/api''\<rparr>"
    unfolding api_server_def by code_simp
  have m2: "base_url_match (base_url ((api_server [])\<lparr>base_url := ''https://example.com/api''\<rparr>))
              = Some \<lparr>group2 = Some ''https'', group3 = ''example.com'', group4 = None,
                      group5 = None, group6 = ''/api''\<rparr>"
    unfolding api_server_def by code_simp
  have p: "py_int ''8080'' \<le> 65535"
    by (simp add: py_int_def)
  have s: "Schema_get_key_by_value (lower ''https'') \<noteq> None"
    by code_simp
  show ?thesis
    using base_url_scheme_and_port_optional [OF m1] base_url_scheme_and_port_optional [OF m2] p s
    by simp
qed

text \<open>
  A server whose base URL has no port has no identity: the property adds the group of
  the port, which is \<open>None\<close>, to a string.
\<close>

lemma match_host_port_path_groups:
  "match_host_port_path s = Some g \<Longrightarrow> (group4 g = None \<longleftrightarrow> group5 g = None)"
  by (auto simp: match_host_port_path_def Let_def split: if_splits list.splits)

lemma base_url_match_groups:
  "base_url_match url = Some g \<Longrightarrow> (group4 g = None \<longleftrightarrow> group5 g = None)"
  by (auto simp: base_url_match_def Let_def split: if_splits option.splits
      dest: match_host_port_path_groups)

lemma identity_without_port:
  "base_url_match (base_url sc) = Some g \<Longrightarrow> group5 g = None \<Longrightarrow> identity sc = Inl TypeError"
  using base_url_match_groups [of "base_url sc" g] by (simp add: identity_def)

section \<open>Validation of the ids\<close>

lemma fold_servers_ids:
  "fold (\<lambda>server (sr, rr). (sr \<union> set (requests_ids server), insert (default_response_id server) rr)) xs (a, b)
     = (a \<union> \<Union> ((\<lambda>server. set (requests_ids server)) ` set xs), b \<union> default_response_id ` set xs)"
  by (induction xs arbitrary: a b) auto

lemma fold_requests_ids:
  "fold (\<lambda>request rr. insert (response_id request) rr) xs b = b \<union> response_id ` set xs"
  by (induction xs arbitrary: b) auto

lemma validate_request_response_ids_iff:
  "validate_request_response_ids config = Inr () \<longleftrightarrow> all_ids_described config"
proof -
  have "response_id ` snd ` set (requests config) \<subseteq> fst ` set (responses config)
          \<longleftrightarrow> (\<forall>request \<in> snd ` set (requests config). response_id request \<in> fst ` set (responses config))"
    by blast
  moreover have "\<Union> ((\<lambda>server. set (requests_ids server)) ` set (servers config)) \<subseteq> fst ` set (requests config)
          \<longleftrightarrow> (\<forall>server \<in> set (servers config). set (requests_ids server) \<subseteq> fst ` set (requests config))"
    by blast
  moreover have "default_response_id ` set (servers config) \<subseteq> fst ` set (responses config)
          \<longleftrightarrow> (\<forall>server \<in> set (servers config). default_response_id server \<in> fst ` set (responses config))"
    by blast
  ultimately show ?thesis
    unfolding validate_request_response_ids_def all_ids_described_def
    by (simp add: fold_servers_ids fold_requests_ids Let_def) blast
qed

lemma validate_request_response_ids_cases:
  "validate_request_response_ids config = Inr () \<or> validate_request_response_ids config = Inl ValueError"
  by (simp add: validate_request_response_ids_def Let_def split: prod.splits)

lemma validate_Inr: "validate config = Inr u \<Longrightarrow> all_ids_described config"
  by (auto simp: validate_def validate_request_response_ids_iff[symmetric] split: sum.splits)

lemma validate_not_described: "\<not> all_ids_described config \<Longrightarrow> \<exists>e. validate config = Inl e"
  using validate_Inr [of config] by (cases "validate config") auto

text \<open>
  C5. \<open>parse_config\<close> returns the configuration only if every request id of every
  server and every response id of every request and of every server's default is a key
  of its mapping. A configuration that breaks this is refused by \<open>validate\<close> and by
  \<open>parse_config\<close>, and \<open>main\<close> then ends with no process constructed or started.
\<close>

theorem validated_config_ids_described:
  "(parse_config config = Inr config' \<longrightarrow> config' = config \<and> all_ids_described config)
   \<and> (\<not> all_ids_described config \<longrightarrow>
        (\<exists>e. validate config = Inl e) \<and> (\<exists>e. parse_config config = Inl e)
        \<and> (\<exists>e st. main_start env config = (Some e, st) \<and> processes st = []))"
proof (intro conjI impI)
  assume "parse_config config = Inr config'"
  then show "config' = config" "all_ids_described config"
    by (auto simp: parse_config_def split: sum.splits if_splits dest: validate_Inr)
next
  assume n: "\<not> all_ids_described config"
  then obtain e where e: "validate config = Inl e"
    using validate_not_described by blast
  then show "\<exists>e. validate config = Inl e" by blast
  from e show "\<exists>e. parse_config config = Inl e"
    by (simp add: parse_config_def)
  from e show "\<exists>e st. main_start env config = (Some e, st) \<and> processes st = []"
    by (simp add: main_start_def parse_config_def)
qed

lemma schema_api_server: "schema (api_server ids) = Inr (Some HTTP)"
  unfolding schema_def api_server_def by code_simp

lemma validate_protocol_api_server: "validate_protocol_configured (api_server ids) = Inr ()"
  by (simp add: validate_protocol_configured_def schema_api_server) (simp add: api_server_def)

lemma described_overlapping:
  "all_ids_described (overlapping_config env declared)
     \<longleftrightarrow> set (set_order env declared) \<subseteq> {''first'', ''second''}"
  by (auto simp: all_ids_described_def overlapping_config_def api_server_def ping_rule_def)

lemma validate_overlapping: "validate (overlapping_config example_env [''first'']) = Inr ()"
  using validate_request_response_ids_iff [of "overlapping_config example_env [''first'']"]
  by (simp add: validate_def described_overlapping example_env_single)
     (simp add: overlapping_config_def validate_protocol_api_server)

theorem validated_config_ids_described_witness:
  "parse_config (overlapping_config example_env [''first'']) = Inr (overlapping_config example_env [''first''])
   \<and> all_ids_described (overlapping_config example_env [''first''])
   \<and> \<not> all_ids_described (overlapping_config example_env [''third''])
   \<and> (\<exists>e. parse_config (overlapping_config example_env [''third'']) = Inl e)
   \<and> (\<forall>env. \<exists>e st. main_start env (overlapping_config example_env [''third'']) = (Some e, st) \<and> processes st = [])"
proof -
  have ok: "parse_config (overlapping_config example_env [''first'']) = Inr (overlapping_config example_env [''first''])"
    by (simp add: parse_config_def validate_overlapping)
  have bad: "\<not> all_ids_described (overlapping_config example_env [''third''])"
    by (simp add: described_overlapping example_env_single)
  show ?thesis
    using ok bad validated_config_ids_described [of "overlapping_config example_env [''first'']" "overlapping_config example_env [''first'']"]
      validated_config_ids_described [of "overlapping_config example_env [''third'']"]
    by blast
qed

section \<open>Polling an unchanged file\<close>

lemma do_load_known_hash:
  assumes "file_hash l = Some (sha content)" and "do_load sha now (Some content) l = (e, l')"
  shows "file_hash l' = Some (sha content) \<and> is_changed l' = is_changed l"
  using assms
  by (auto simp: do_load_def read_file_at_def Let_def split: if_splits option.splits sum.splits bool.splits)

text \<open>
  A call of \<open>do_load\<close> that changes the flag or the stored hash leaves the flag up and
  the hash of the content stored.
\<close>

lemma do_load_flag_raised:
  assumes "do_load sha now (Some content) l = (e, l')"
    and "is_changed l' \<noteq> is_changed l \<or> file_hash l' \<noteq> file_hash l"
  shows "file_hash l' = Some (sha content) \<and> is_changed l'"
  using assms
  by (auto simp: do_load_def read_file_at_def Let_def split: if_splits option.splits sum.splits bool.splits)

lemma get_file_value_known_hash:
  assumes "file_hash l = Some (sha content)" and "get_file_value sha now (Some content) l = (r, l')"
  shows "file_hash l' = Some (sha content) \<and> is_changed l' = is_changed l"
  using assms by (auto simp: get_file_value_def read_file_at_def split: option.splits)

lemma run_calls_known_hash:
  assumes "file_hash l = Some (sha content)"
  shows "fst (run_calls sha content calls l) = 0
         \<and> (\<not> is_changed l \<longrightarrow> \<not> is_changed (snd (run_calls sha content calls l)))"
  using assms
proof (induction calls arbitrary: l)
  case Nil
  then show ?case by simp
next
  case (Cons call calls)
  show ?case
  proof (cases call)
    case (DoLoad now)
    obtain e l' where d: "do_load sha now (Some content) l = (e, l')"
      by (cases "do_load sha now (Some content) l")
    from do_load_known_hash [OF Cons.prems d] Cons.IH [of l'] show ?thesis
      using DoLoad d Cons.prems by (auto simp: Let_def split: prod.splits)
  next
    case ResetChanged
    from Cons.IH [of "reset_changed l"] Cons.prems show ?thesis
      using ResetChanged by (simp add: reset_changed_def)
  next
    case (GetFileValue now)
    obtain r l' where g: "get_file_value sha now (Some content) l = (r, l')"
      by (cases "get_file_value sha now (Some content) l")
    from get_file_value_known_hash [OF Cons.prems g] Cons.IH [of l'] show ?thesis
      using GetFileValue g by (cases r) auto
  qed
qed

lemma run_calls_at_most_once: "fst (run_calls sha content calls l) \<le> 1"
proof (induction calls arbitrary: l)
  case Nil
  then show ?case by simp
next
  case (Cons call calls)
  show ?case
  proof (cases call)
    case (DoLoad now)
    obtain e l' where d: "do_load sha now (Some content) l = (e, l')"
      by (cases "do_load sha now (Some content) l")
    show ?thesis
    proof (cases "is_changed l' \<and> (\<not> is_changed l \<or> file_hash l' \<noteq> file_hash l)")
      case False
      then show ?thesis
        using DoLoad d Cons.IH [of l'] by (auto simp: Let_def split: prod.splits)
    next
      case True
      then have "file_hash l' = Some (sha content)"
        using do_load_flag_raised [OF d] by blast
      then have "fst (run_calls sha content calls l') = 0"
        using run_calls_known_hash by blast
      then show ?thesis
        using DoLoad d True by (auto simp: Let_def split: prod.splits)
    qed
  next
    case ResetChanged
    then show ?thesis using Cons.IH [of "reset_changed l"] by simp
  next
    case (GetFileValue now)
    obtain r l' where g: "get_file_value sha now (Some content) l = (r, l')"
      by (cases "get_file_value sha now (Some content) l")
    then show ?thesis
      using GetFileValue Cons.IH [of l'] by (cases r) auto
  qed
qed

text \<open>
  C9. However \<open>do_load\<close>, \<open>reset_changed\<close> and \<open>get_file_value\<close> are called, and at
  whatever moments, on a file whose content stays the same, at most one call of
  \<open>do_load\<close> sets the flag. Once the hash of that content is the stored one, no call
  sets it: a flag that is down stays down.
\<close>

theorem unchanged_content_sets_flag_at_most_once:
  "fst (run_calls sha content calls l) \<le> 1
   \<and> (file_hash l = Some (sha content) \<longrightarrow>
        fst (run_calls sha content calls l) = 0
        \<and> (\<not> is_changed l \<longrightarrow> \<not> is_changed (snd (run_calls sha content calls l))))"
  using run_calls_at_most_once run_calls_known_hash by blast

text \<open>In the example \<open>bytes_hex\<close> stands for the hash.\<close>

theorem unchanged_content_sets_flag_at_most_once_witness:
  "run_calls bytes_hex [1] [DoLoad 0, ResetChanged, DoLoad 2, DoLoad 5, DoLoad 9] (new_ConfigFileLoader ''cap.yml'')
     = (1, \<lparr>filename = ''cap.yml'', last_read = Some 9, read_interval = 3, cached_value = Some [1],
             file_hash = Some ''01'', is_changed = False\<rparr>)
   \<and> fst (run_calls bytes_hex [1] [DoLoad 10, DoLoad 20]
        \<lparr>filename = ''cap.yml'', last_read = Some 9, read_interval = 3, cached_value = Some [1],
           file_hash = Some (bytes_hex [1]), is_changed = False\<rparr>) = 0
   \<and> \<not> is_changed (snd (run_calls bytes_hex [1] [DoLoad 10, DoLoad 20]
        \<lparr>filename = ''cap.yml'', last_read = Some 9, read_interval = 3, cached_value = Some [1],
           file_hash = Some (bytes_hex [1]), is_changed = False\<rparr>))"
proof -
  have h: "bytes_hex [1] = ''01''"
    by (simp add: bytes_hex_def hex_digit_def)
  have r: "run_calls bytes_hex [1] [DoLoad 0, ResetChanged, DoLoad 2, DoLoad 5, DoLoad 9] (new_ConfigFileLoader ''cap.yml'')
     = (1, \<lparr>filename = ''cap.yml'', last_read = Some 9, read_interval = 3, cached_value = Some [1],
             file_hash = Some ''01'', is_changed = False\<rparr>)"
    by (simp add: new_ConfigFileLoader_def do_load_def read_file_at_def reset_changed_def h Let_def)
  show ?thesis
    using r unchanged_content_sets_flag_at_most_once [of bytes_hex "[1]" "[DoLoad 10, DoLoad 20]"
        "\<lparr>filename = ''cap.yml'', last_read = Some 9, read_interval = 3, cached_value = Some [1],
           file_hash = Some (bytes_hex [1]), is_changed = False\<rparr>"]
    by simp
qed

section \<open>The logged body\<close>

text \<open>
  The condition \<open>if body_type.TEXT\<close> holds for every body type, so the body is always
  given to the decoder and the branch that renders it in hexadecimal is never taken.
\<close>

lemma log_request_body_decodes:
  "log_request_body env log_config response_log_config request body_bytes =
     decode env
       (case (case body_encoding response_log_config of Some e \<Rightarrow> Some e | None \<Rightarrow> body_encoding log_config) of
          None \<Rightarrow> ''utf-8'' | Some e \<Rightarrow> e)
       body_bytes"
  by (simp add: log_request_body_def truthy_def member_TEXT_def Let_def)

text \<open>
  With the two literals joined, \<open>application/json\<close> holds none of the strings of the
  set: the media type is classified \<open>BYTES\<close>.
\<close>

lemma json_media_type_is_bytes: "mime_type_to_body_type ''application/json'' = BYTES"
  by (simp add: mime_type_to_body_type_def text_substrings_def)

text \<open>
  C7 at a failing input. With the default configuration of the logger and a response
  whose \<open>request_log_config\<close> sets \<open>body_type\<close> to \<open>bytes\<close>, the body \<open>hi\<close> is classified
  \<open>BYTES\<close>; its hexadecimal rendering is \<open>6869\<close>, and what is logged is the body decoded
  as UTF-8.
\<close>

theorem bytes_body_logged_as_text:
  "classified_body_type env DefaultRequestLogConfig
     \<lparr>headers_enabled = None, body_enabled = None, body_as_file = None, body_files_folder = None,
        body_type = Some BYTES, body_encoding = None, log_file = None, log_console = None\<rparr>
     request [104, 105] = BYTES
   \<and> log_request_body env DefaultRequestLogConfig
     \<lparr>headers_enabled = None, body_enabled = None, body_as_file = None, body_files_folder = None,
        body_type = Some BYTES, body_encoding = None, log_file = None, log_console = None\<rparr>
     request [104, 105] = decode env ''utf-8'' [104, 105]
   \<and> bytes_hex [104, 105] = ''6869''"
  by (simp add: log_request_body_decodes classified_body_type_def DefaultRequestLogConfig_def
      bytes_hex_def hex_digit_def)

section \<open>The rendered response\<close>

text \<open>
  A body given as a literal string is rendered as the bytes the codec of its encoding
  gives for that string, and these are the body of the response.
\<close>

lemma literal_body_bytes:
  assumes "body_file b = None" and "data b = Str s" and "data_encoding b = Some enc"
    and "encode env enc s = Inr bs"
  shows "HttpBody_bytes env b = bs"
    and "response_body (request_response_function env request rc (response_config\<lparr>body := b\<rparr>) sc) = bs"
  using assms by (simp_all add: HttpBody_bytes_def request_response_function_def new_RawResponse_def)

text \<open>
  The dict of headers holds the length of the body under \<open>content-length\<close>, and the raw
  headers hold it under that name.
\<close>

lemma content_length_in_dict:
  "map_of (fst (init_headers content hdrs)) ''content-length'' = Some (py_str_nat (length content))"
  by (simp add: init_headers_def Let_def update_conv')

lemma lower_content_length: "lower ''content-length'' = ''content-length''"
  by (simp add: lower_def lower_char_def)

lemma content_length_in_raw_headers:
  "(latin1_encode ''content-length'', latin1_encode (py_str_nat (length content)))
     \<in> set (raw_headers (new_RawResponse content st hdrs))"
proof -
  let ?h = "AList.update ''content-length'' (py_str_nat (length content)) hdrs"
  let ?f = "\<lambda>(k, v). (latin1_encode (lower k), latin1_encode v)"
  have "(''content-length'', py_str_nat (length content)) \<in> set ?h"
    by (rule map_of_SomeD) (simp add: update_conv')
  then have "?f (''content-length'', py_str_nat (length content)) \<in> ?f ` set ?h"
    by (rule imageI)
  then show ?thesis
    by (simp add: new_RawResponse_def init_headers_def Let_def lower_content_length)
qed

lemma lower_Content_Length: "lower ''Content-Length'' = ''content-length''"
  by (simp add: lower_def lower_char_def)

text \<open>
  C8 at a failing input. A response with the body \<open>pong\<close> and the configured header
  \<open>Content-Length: 0\<close>: the length is stored under the key \<open>content-length\<close>, the
  configured key is another key of the dict, and lowering the keys gives two
  \<open>content-length\<close> headers, the first with the value \<open>0\<close> for a body of four bytes.
\<close>

theorem content_length_header_twice:
  "raw_headers (request_response_function env request None
       ((bytes_response [112, 111, 110, 103])\<lparr>headers := [(''Content-Length'', ''0'')]\<rparr>) server_config)
     = [(latin1_encode ''content-length'', latin1_encode ''0''),
        (latin1_encode ''content-length'', latin1_encode ''4'')]
   \<and> response_body (request_response_function env request None
       ((bytes_response [112, 111, 110, 103])\<lparr>headers := [(''Content-Length'', ''0'')]\<rparr>) server_config)
     = [112, 111, 110, 103]"
  by (simp add: request_response_function_def new_RawResponse_def init_headers_def bytes_response_def
      HttpBody_bytes_def lower_Content_Length lower_content_length digit_char_def Let_def
      py_str_nat.simps)

section \<open>Replacing the listeners\<close>

lemma not_alive_tick: "\<not> is_alive p \<Longrightarrow> tick_process p = p"
  by (auto simp: is_alive_def tick_process_def split: proc_status.splits)

lemma list_not_alive_tick: "list_all (\<lambda>p. \<not> is_alive p) ps \<Longrightarrow> map tick_process ps = ps"
  by (induction ps) (auto simp: not_alive_tick)

lemma terminate_all_no_Running:
  "list_all (\<lambda>p. proc_status p \<noteq> Running) (processes (terminate_all latency st))"
  by (auto simp: terminate_all_def is_running_def list_all_iff list_ex_iff is_alive_def terminate_def
      split: proc_status.splits)

lemma terminate_all_released: "released (terminate_all latency st) = released st"
  by (simp add: terminate_all_def)

lemma terminate_all_logger: "logger_config (terminate_all latency st) = logger_config st"
  by (simp add: terminate_all_def)

lemma settled_tick: "proc_status p \<noteq> Running \<Longrightarrow> settled (tick_process p) = settled p"
  by (auto simp: settled_def tick_process_def split: proc_status.splits nat.splits)

lemma tick_no_Running: "proc_status p \<noteq> Running \<Longrightarrow> proc_status (tick_process p) \<noteq> Running"
  by (auto simp: tick_process_def split: proc_status.splits nat.splits)

lemma not_running_settled:
  "list_all (\<lambda>p. proc_status p \<noteq> Running) ps \<Longrightarrow> \<not> list_ex is_alive ps \<Longrightarrow> map settled ps = ps"
  by (induction ps) (auto simp: settled_def is_alive_def split: proc_status.splits)

lemma remaining_tick_le: "remaining (tick_process p) \<le> remaining p"
  by (auto simp: remaining_def tick_process_def split: proc_status.splits nat.splits)

lemma remaining_tick_less:
  "proc_status p \<noteq> Running \<Longrightarrow> is_alive p \<Longrightarrow> remaining (tick_process p) < remaining p"
  by (auto simp: remaining_def tick_process_def is_alive_def split: proc_status.splits nat.splits)

lemma sum_remaining_tick_less:
  "list_all (\<lambda>p. proc_status p \<noteq> Running) ps \<Longrightarrow> list_ex is_alive ps
     \<Longrightarrow> sum_list (map remaining (map tick_process ps)) < sum_list (map remaining ps)"
proof (induction ps)
  case Nil
  then show ?case by simp
next
  case (Cons p ps)
  show ?case
  proof (cases "is_alive p")
    case True
    have "sum_list (map remaining (map tick_process ps)) \<le> sum_list (map remaining ps)"
      by (induction ps) (auto intro: add_mono remaining_tick_le)
    then show ?thesis
      using remaining_tick_less [of p] True Cons.prems by simp
  next
    case False
    then show ?thesis
      using Cons remaining_tick_le [of p] by (simp add: add_le_less_mono)
  qed
qed

lemma wait_while_running_settles:
  assumes "list_all (\<lambda>p. proc_status p \<noteq> Running) (processes st)"
    and "list_all (\<lambda>p. \<not> is_alive p) (released st)"
  shows "wait_while_running st = Some (st\<lparr>processes := map settled (processes st)\<rparr>)"
  using assms
proof (induction "sum_list (map remaining (processes st))" arbitrary: st rule: less_induct)
  case less
  show ?case
  proof (cases "is_running st")
    case False
    then have "map settled (processes st) = processes st"
      using less.prems(1) by (simp add: is_running_def not_running_settled)
    then show ?thesis
      using False by (subst wait_while_running.simps) simp
  next
    case True
    have t: "tick st = st\<lparr>processes := map tick_process (processes st)\<rparr>"
      using less.prems(2) by (simp add: tick_def list_not_alive_tick)
    have d: "sum_list (map remaining (processes (tick st))) < sum_list (map remaining (processes st))"
      using sum_remaining_tick_less [OF less.prems(1)] True by (simp add: t is_running_def)
    have nr: "list_all (\<lambda>p. proc_status p \<noteq> Running) (processes (tick st))"
      using less.prems(1) by (simp add: t list_all_iff tick_no_Running)
    have rel: "list_all (\<lambda>p. \<not> is_alive p) (released (tick st))"
      using less.prems(2) by (simp add: t)
    have s: "map settled (processes (tick st)) = map settled (processes st)"
      using less.prems(1) by (simp add: t list_all_iff settled_tick)
    have w: "wait_while_running (tick st) = Some ((tick st)\<lparr>processes := map settled (processes st)\<rparr>)"
      using less.hyps [OF d nr rel] by (simp only: s)
    have e: "(tick st)\<lparr>processes := map settled (processes st)\<rparr> = st\<lparr>processes := map settled (processes st)\<rparr>"
      by (simp add: t)
    show ?thesis
      using True w by (subst wait_while_running.simps) (simp only: e if_True)
  qed
qed

lemma settled_not_alive: "proc_status p \<noteq> Running \<Longrightarrow> \<not> is_alive (settled p)"
  by (auto simp: settled_def is_alive_def split: proc_status.splits)

lemma create_processes_Initial:
  "create_processes config endpoints scs = Inr ps \<Longrightarrow> list_all (\<lambda>p. proc_status p = Initial) ps"
  by (induction scs arbitrary: ps) (auto split: sum.splits option.splits)

lemma get_server_processes_Initial:
  "get_server_processes env config = Inr ps \<Longrightarrow> list_all (\<lambda>p. proc_status p = Initial) ps"
  by (auto simp: get_server_processes_def create_processes_Initial split: sum.splits)

lemma start_each_Initial:
  "list_all (\<lambda>p. proc_status p = Initial) ps
     \<Longrightarrow> start_each ps = (None, map (\<lambda>p. p\<lparr>proc_status := Running\<rparr>) ps)"
  by (induction ps) (auto simp: start_def)

lemma set_processes_not_running:
  "\<not> is_running st \<Longrightarrow> set_processes latency new st = st\<lparr>processes := new, released := released st @ processes st\<rparr>"
  by (simp add: set_processes_def)

lemma wait_states_settles:
  assumes "list_all (\<lambda>p. proc_status p \<noteq> Running) (processes st)"
    and "list_all (\<lambda>p. \<not> is_alive p) (released st)"
  shows "\<exists>tr. wait_states st = Some tr \<and> tr \<noteq> []
           \<and> last tr = st\<lparr>processes := map settled (processes st)\<rparr>
           \<and> list_all (\<lambda>s. released s = released st) tr"
  using assms
proof (induction "sum_list (map remaining (processes st))" arbitrary: st rule: less_induct)
  case less
  show ?case
  proof (cases "is_running st")
    case False
    then have "map settled (processes st) = processes st"
      using less.prems(1) by (simp add: is_running_def not_running_settled)
    then show ?thesis
      using False by (subst wait_states.simps) simp
  next
    case True
    have t: "tick st = st\<lparr>processes := map tick_process (processes st)\<rparr>"
      using less.prems(2) by (simp add: tick_def list_not_alive_tick)
    have d: "sum_list (map remaining (processes (tick st))) < sum_list (map remaining (processes st))"
      using sum_remaining_tick_less [OF less.prems(1)] True by (simp add: t is_running_def)
    have nr: "list_all (\<lambda>p. proc_status p \<noteq> Running) (processes (tick st))"
      using less.prems(1) by (simp add: t list_all_iff tick_no_Running)
    have rel: "list_all (\<lambda>p. \<not> is_alive p) (released (tick st))"
      using less.prems(2) by (simp add: t)
    have s: "map settled (processes (tick st)) = map settled (processes st)"
      using less.prems(1) by (simp add: t list_all_iff settled_tick)
    have r: "released (tick st) = released st"
      by (simp add: t)
    have e: "(tick st)\<lparr>processes := map settled (processes st)\<rparr> = st\<lparr>processes := map settled (processes st)\<rparr>"
      by (simp add: t)
    obtain tr where tr: "wait_states (tick st) = Some tr" "tr \<noteq> []"
        "last tr = st\<lparr>processes := map settled (processes st)\<rparr>"
        "list_all (\<lambda>s. released s = released st) tr"
      using less.hyps [OF d nr rel] unfolding s r e by blast
    have "wait_states st = Some (st # tr)"
      using True tr(1) by (subst wait_states.simps) simp
    then show ?thesis
      using tr by simp
  qed
qed

lemma start_each_states_length:
  "list_all (\<lambda>p. proc_status p = Initial) ps \<Longrightarrow> length (start_each_states started ps) = length ps"
  by (induction ps arbitrary: started) (auto simp: start_def)

lemma start_each_states_last:
  "list_all (\<lambda>p. proc_status p = Initial) ps \<Longrightarrow> ps \<noteq> []
     \<Longrightarrow> last (start_each_states started ps) = started @ map (\<lambda>p. p\<lparr>proc_status := Running\<rparr>) ps"
proof (induction ps arbitrary: started)
  case Nil
  then show ?case by simp
next
  case (Cons p rest)
  show ?case
  proof (cases "rest = []")
    case True
    then show ?thesis using Cons.prems by (simp add: start_def)
  next
    case False
    have "length (start_each_states (started @ [p\<lparr>proc_status := Running\<rparr>]) rest) = length rest"
      using Cons.prems by (simp add: start_each_states_length)
    then have "start_each_states (started @ [p\<lparr>proc_status := Running\<rparr>]) rest \<noteq> []"
      using False by auto
    then show ?thesis
      using Cons.IH [of "started @ [p\<lparr>proc_status := Running\<rparr>]"] Cons.prems False
      by (simp add: start_def)
  qed
qed

lemma start_all_states_released:
  "list_all (\<lambda>s. released s = released st) (start_all_states st)"
  by (simp add: start_all_states_def list_all_iff)

lemma released_dead_no_overlap:
  "list_all (\<lambda>p. \<not> is_alive p) (released s) \<Longrightarrow> \<not> generations_overlap s"
  by (auto simp: generations_overlap_def list_all_iff list_ex_iff)

text \<open>
  C6. A reload with a configuration that parses and whose processes can be constructed,
  from a state in which the processes let go of earlier have stopped. The wait after
  \<open>terminate_all\<close> ends, and in the state it ends in no process of the old set is alive
  and none of the earlier ones is; the processes of the new configuration are then
  constructed, none of them started; only then are they started, and the old set is let
  go of with every process in it stopped. In none of the states the program passes
  through, from the first to the one it ends in, are two generations alive together.
\<close>

theorem reload_stops_old_before_new_starts:
  assumes "get_server_processes env c = Inr ps" and "list_all (\<lambda>p. \<not> is_alive p) (released st)"
  shows "\<exists>st1 states.
           wait_while_running (terminate_all latency st) = Some st1
           \<and> list_all (\<lambda>p. \<not> is_alive p) (processes st1)
           \<and> list_all (\<lambda>p. \<not> is_alive p) (released st1)
           \<and> list_all (\<lambda>p. proc_status p = Initial) ps
           \<and> apply_changes env latency (Inr c) st
               = Some (None, \<lparr>processes = map (\<lambda>p. p\<lparr>proc_status := Running\<rparr>) ps,
                              released = released st1 @ processes st1,
                              logger_config = global_request_log_config c\<rparr>)
           \<and> apply_changes_states env latency (Inr c) st = Some states
           \<and> last states = \<lparr>processes = map (\<lambda>p. p\<lparr>proc_status := Running\<rparr>) ps,
                              released = released st1 @ processes st1,
                              logger_config = global_request_log_config c\<rparr>
           \<and> list_all (\<lambda>s. \<not> generations_overlap s) states"
proof -
  let ?t = "terminate_all latency st"
  let ?st1 = "?t\<lparr>processes := map settled (processes ?t)\<rparr>"
  let ?st2 = "?st1\<lparr>logger_config := global_request_log_config c\<rparr>"
  let ?st3 = "?st2\<lparr>processes := ps, released := released ?st2 @ processes ?st2\<rparr>"
  let ?final = "\<lparr>processes = map (\<lambda>p. p\<lparr>proc_status := Running\<rparr>) ps,
                  released = released ?st1 @ processes ?st1,
                  logger_config = global_request_log_config c\<rparr>"
  have nr: "list_all (\<lambda>p. proc_status p \<noteq> Running) (processes ?t)"
    by (rule terminate_all_no_Running)
  have rel: "list_all (\<lambda>p. \<not> is_alive p) (released ?t)"
    using assms(2) by (simp add: terminate_all_released)
  have w: "wait_while_running ?t = Some ?st1"
    by (rule wait_while_running_settles [OF nr rel])
  obtain waited where ws: "wait_states ?t = Some waited" "waited \<noteq> []" "last waited = ?st1"
      "list_all (\<lambda>s. released s = released ?t) waited"
    using wait_states_settles [OF nr rel] by blast
  have dead: "list_all (\<lambda>p. \<not> is_alive p) (processes ?st1)"
    using nr by (simp add: list_all_iff settled_not_alive)
  have rel1: "list_all (\<lambda>p. \<not> is_alive p) (released ?st1)"
    using rel by simp
  have init: "list_all (\<lambda>p. proc_status p = Initial) ps"
    by (rule get_server_processes_Initial [OF assms(1)])
  have notrun: "\<not> is_running ?st2"
    using dead by (simp add: is_running_def list_all_iff list_ex_iff)
  have sp: "set_processes latency ps ?st2 = ?st3"
    by (rule set_processes_not_running [OF notrun])
  have ac: "apply_changes env latency (Inr c) st = Some (None, ?final)"
    unfolding apply_changes_def
    by (simp add: w assms(1) Let_def sp start_all_def start_each_Initial [OF init])
  let ?states = "st # waited @ [?st2, ?st3] @ start_all_states ?st3"
  have acs: "apply_changes_states env latency (Inr c) st = Some ?states"
    unfolding apply_changes_states_def by (simp add: ws assms(1) Let_def sp)
  have "last ?states = ?final"
  proof (cases "ps = []")
    case True
    then show ?thesis by (simp add: start_all_states_def)
  next
    case False
    then have ne: "start_each_states [] ps \<noteq> []"
      using start_each_states_length [OF init, of "[]"] by auto
    then show ?thesis
      using start_each_states_last [OF init False, of "[]"]
      by (simp add: start_all_states_def last_map)
  qed
  moreover have "list_all (\<lambda>s. \<not> generations_overlap s) ?states"
  proof -
    have r3: "list_all (\<lambda>p. \<not> is_alive p) (released ?st3)"
      using rel1 dead by simp
    have H: "list_all (\<lambda>s. list_all (\<lambda>p. \<not> is_alive p) (released s)) ?states"
      using assms(2) ws(4) rel rel1 r3 start_all_states_released [of ?st3]
      by (auto simp: list_all_iff)
    show ?thesis
      by (rule list.pred_mono_strong [OF H]) (rule released_dead_no_overlap)
  qed
  ultimately show ?thesis
    using w dead rel1 init ac acs by blast
qed

text \<open>
  C3 at a failing input: a reload whose configuration fails to parse or to validate
  (\<open>parse_config\<close> raises \<open>IOError\<close>), with one listener running. The listener is
  terminated, reading \<open>config.request_log_config\<close> from \<open>None\<close> raises, and the program
  ends with the listener stopped.
\<close>

theorem failed_reload_terminates_listeners:
  "reload_round env latency (Inl IOError)
     \<lparr>processes = [\<lparr>application = app, server = sc, proc_status = Running\<rparr>], released = [],
        logger_config = lc\<rparr>
   = Some (Some AttributeError,
       \<lparr>processes = [\<lparr>application = app, server = sc, proc_status = Stopped\<rparr>], released = [],
          logger_config = lc\<rparr>)"
proof -
  let ?st = "\<lparr>processes = [\<lparr>application = app, server = sc, proc_status = Running\<rparr>], released = [],
        logger_config = lc\<rparr>"
  let ?t = "terminate_all latency ?st"
  have t: "?t = \<lparr>processes = [\<lparr>application = app, server = sc,
                     proc_status = Stopping (latency \<lparr>application = app, server = sc, proc_status = Running\<rparr>)\<rparr>],
                  released = [], logger_config = lc\<rparr>"
    by (simp add: terminate_all_def is_running_def is_alive_def terminate_def)
  have w: "wait_while_running ?t = Some (?t\<lparr>processes := map settled (processes ?t)\<rparr>)"
    by (rule wait_while_running_settles) (simp_all add: t)
  have w': "wait_while_running ?t
              = Some \<lparr>processes = [\<lparr>application = app, server = sc, proc_status = Stopped\<rparr>],
                      released = [], logger_config = lc\<rparr>"
    unfolding w by (simp add: t settled_def)
  have f: "terminate_all latency
             \<lparr>processes = [\<lparr>application = app, server = sc, proc_status = Stopped\<rparr>],
                released = [], logger_config = lc\<rparr>
           = \<lparr>processes = [\<lparr>application = app, server = sc, proc_status = Stopped\<rparr>],
                released = [], logger_config = lc\<rparr>"
    by (simp add: terminate_all_def is_running_def is_alive_def)
  show ?thesis
    unfolding reload_round_def apply_changes_def by (simp add: w' f)
qed

lemma example_processes:
  "\<exists>p. get_server_processes example_env (overlapping_config example_env [''first'']) = Inr [p]"
  by (simp add: get_server_processes_def create_server_routes_def overlapping_config_def
      identity_api_server api_server_fields example_env_def)

theorem reload_stops_old_before_new_starts_witness:
  "\<exists>states st'.
       apply_changes example_env (\<lambda>p. 2) (Inr (overlapping_config example_env [''first'']))
            \<lparr>processes = [idle_process Running], released = [idle_process Stopped],
               logger_config = DefaultRequestLogConfig\<rparr>
          = Some (None, st')
        \<and> map proc_status (processes st') = [Running]
        \<and> released st' = [idle_process Stopped, idle_process Stopped]
        \<and> apply_changes_states example_env (\<lambda>p. 2) (Inr (overlapping_config example_env [''first'']))
            \<lparr>processes = [idle_process Running], released = [idle_process Stopped],
               logger_config = DefaultRequestLogConfig\<rparr>
          = Some states
        \<and> last states = st'
        \<and> list_all (\<lambda>s. \<not> generations_overlap s) states"
proof -
  let ?st = "\<lparr>processes = [idle_process Running], released = [idle_process Stopped],
               logger_config = DefaultRequestLogConfig\<rparr>"
  obtain p where g: "get_server_processes example_env (overlapping_config example_env [''first'']) = Inr [p]"
    using example_processes by blast
  have rel: "list_all (\<lambda>p. \<not> is_alive p) (released ?st)"
    by (simp add: is_alive_def idle_process_def)
  have t: "terminate_all (\<lambda>p. 2) ?st
             = \<lparr>processes = [idle_process (Stopping 2)], released = [idle_process Stopped],
                  logger_config = DefaultRequestLogConfig\<rparr>"
    by (simp add: terminate_all_def is_running_def is_alive_def terminate_def idle_process_def)
  have w: "wait_while_running (terminate_all (\<lambda>p. 2) ?st)
             = Some \<lparr>processes = [idle_process Stopped], released = [idle_process Stopped],
                      logger_config = DefaultRequestLogConfig\<rparr>"
    unfolding t
    by (subst wait_while_running_settles) (simp_all add: idle_process_def settled_def is_alive_def)
  from reload_stops_old_before_new_starts [OF g rel, of "\<lambda>p. 2"] w show ?thesis
    by auto
qed

text \<open>
  The wait is what keeps the generations apart: the setter of \<open>processes\<close> alone, on a
  state with a running process, followed by \<open>start_all\<close>, leaves the old process alive
  beside the new one.
\<close>

lemma setter_without_wait_overlaps:
  "generations_overlap
     (snd (start_all (set_processes (\<lambda>p. 2) [idle_process Initial]
        \<lparr>processes = [idle_process Running], released = [], logger_config = DefaultRequestLogConfig\<rparr>)))"
  by (simp add: generations_overlap_def start_all_def set_processes_def terminate_all_def
      is_running_def is_alive_def terminate_def start_def idle_process_def)

end
